theory Spec2Isabelle
  imports
    Complex_Main
    "HOL-Library.Signed_Division"
    "HOL-Library.Char_ord"
    "HOL-Library.List_Lexorder"
begin

section \<open>Data model (types.ts)\<close>

text \<open>
  A track and a playlist, field by field as in \<^verbatim>\<open>types.ts\<close>. The two \<^verbatim>\<open>id\<close>
  fields and the two \<^verbatim>\<open>name\<close> fields are told apart by a prefix. Optional fields
  (\<^verbatim>\<open>album?\<close>, \<^verbatim>\<open>coverUrl?\<close>, \<^verbatim>\<open>isFavorite?\<close>) are options; the blob is its bytes.
\<close>

record Track =
  track_id :: string
  title :: string
  artist :: string
  album :: "string option"
  duration :: rat
  blob :: "nat list"
  coverUrl :: "string option"
  addedAt :: nat
  isFavorite :: "bool option"

record Playlist =
  playlist_id :: string
  playlist_name :: string
  trackIds :: "string list"
  createdAt :: nat

text \<open>
  The values that travel through the settings store and \<^verbatim>\<open>getSetting\<close> (typed
  \<^verbatim>\<open>any\<close>). The enum \<^verbatim>\<open>RepeatMode\<close> is a string enum, so its members are the
  strings below; the state variables \<^verbatim>\<open>shuffle\<close> and \<^verbatim>\<open>repeat\<close> receive whatever
  \<^verbatim>\<open>getSetting\<close> returned at startup and are therefore values of this type too.
\<close>

datatype jsval = JUndefined | JNull | JBool bool | JNum int | JStr string

definition RepeatMode_None :: jsval where
  "RepeatMode_None = JStr ''none''"

definition RepeatMode_One :: jsval where
  "RepeatMode_One = JStr ''one''"

definition RepeatMode_All :: jsval where
  "RepeatMode_All = JStr ''all''"

text \<open>JavaScript truthiness, which is how \<^verbatim>\<open>if (shuffle)\<close> reads the flag.\<close>

fun truthy :: "jsval \<Rightarrow> bool" where
  "truthy JUndefined = False"
| "truthy JNull = False"
| "truthy (JBool b) = b"
| "truthy (JNum n) = (n \<noteq> 0)"
| "truthy (JStr s) = (s \<noteq> [])"

section \<open>Persistent store (db.ts)\<close>

text \<open>
  An object store is its records in ascending key order, which is the order
  \<^verbatim>\<open>getAll\<close> returns them in. \<^verbatim>\<open>put\<close> replaces the record under an existing key.
\<close>

type_synonym 'v object_store = "(string \<times> 'v) list"

fun os_put :: "string \<Rightarrow> 'v \<Rightarrow> 'v object_store \<Rightarrow> 'v object_store" where
  "os_put k v [] = [(k, v)]"
| "os_put k v ((k', v') # xs) =
     (if k = k' then (k, v) # xs
      else if k < k' then (k, v) # (k', v') # xs
      else (k', v') # os_put k v xs)"

definition os_delete :: "string \<Rightarrow> 'v object_store \<Rightarrow> 'v object_store" where
  "os_delete k xs = filter (\<lambda>kv. fst kv \<noteq> k) xs"

definition os_getAll :: "'v object_store \<Rightarrow> 'v list" where
  "os_getAll xs = map snd xs"

definition os_get :: "string \<Rightarrow> 'v object_store \<Rightarrow> 'v option" where
  "os_get k xs = map_of xs k"

text \<open>
  What a promise settles to. A rejection carries either the string the code passes to
  \<^verbatim>\<open>reject\<close> or the \<^verbatim>\<open>Error\<close> thrown by \<^verbatim>\<open>getStore\<close>; a throw inside the executor of
  \<^verbatim>\<open>new Promise\<close> rejects the promise.
\<close>

datatype thrown = Message string | Error string

datatype 'a promise = Resolved 'a | Rejected thrown

fun is_rejected :: "'a promise \<Rightarrow> bool" where
  "is_rejected (Rejected e) = True"
| "is_rejected (Resolved v) = False"

text \<open>
  The platform decides which event a storage request ends with. It is a parameter of
  every operation: a function from the request issued to the event fired.
\<close>

datatype idb_event = onsuccess | onerror

datatype idb_request =
    Open
  | Put string string
  | GetAll string
  | Delete string string
  | Get string string

type_synonym idb = "idb_request \<Rightarrow> idb_event"

definition TRACKS_STORE :: string where
  "TRACKS_STORE = ''tracks''"

definition PLAYLISTS_STORE :: string where
  "PLAYLISTS_STORE = ''playlists''"

definition SETTINGS_STORE :: string where
  "SETTINGS_STORE = ''settings''"

text \<open>
  The class \<^verbatim>\<open>MusicDB\<close>: the field \<^verbatim>\<open>db\<close> (true once the handle is not null) and the
  contents of the three object stores of the database behind it.
\<close>

record MusicDB =
  db :: bool
  tracks_os :: "Track object_store"
  playlists_os :: "Playlist object_store"
  settings_os :: "jsval object_store"

definition MusicDB_init :: "idb \<Rightarrow> MusicDB \<Rightarrow> unit promise \<times> MusicDB" where
  "MusicDB_init env m =
     (case env Open of
        onsuccess \<Rightarrow> (Resolved (), m\<lparr>db := True\<rparr>)
      | onerror \<Rightarrow> (Rejected (Message ''Failed to open IndexedDB''), m))"

definition saveTrack :: "idb \<Rightarrow> Track \<Rightarrow> MusicDB \<Rightarrow> unit promise \<times> MusicDB" where
  "saveTrack env track m =
     (if \<not> db m then (Rejected (Error ''DB not initialized''), m)
      else case env (Put TRACKS_STORE (track_id track)) of
        onsuccess \<Rightarrow> (Resolved (), m\<lparr>tracks_os := os_put (track_id track) track (tracks_os m)\<rparr>)
      | onerror \<Rightarrow> (Rejected (Message ''Error saving track''), m))"

definition getAllTracks :: "idb \<Rightarrow> MusicDB \<Rightarrow> Track list promise \<times> MusicDB" where
  "getAllTracks env m =
     (if \<not> db m then (Rejected (Error ''DB not initialized''), m)
      else case env (GetAll TRACKS_STORE) of
        onsuccess \<Rightarrow> (Resolved (os_getAll (tracks_os m)), m)
      | onerror \<Rightarrow> (Rejected (Message ''Error fetching tracks''), m))"

definition deleteTrack :: "idb \<Rightarrow> string \<Rightarrow> MusicDB \<Rightarrow> unit promise \<times> MusicDB" where
  "deleteTrack env i m =
     (if \<not> db m then (Rejected (Error ''DB not initialized''), m)
      else case env (Delete TRACKS_STORE i) of
        onsuccess \<Rightarrow> (Resolved (), m\<lparr>tracks_os := os_delete i (tracks_os m)\<rparr>)
      | onerror \<Rightarrow> (Rejected (Message ''Error deleting track''), m))"

definition savePlaylist :: "idb \<Rightarrow> Playlist \<Rightarrow> MusicDB \<Rightarrow> unit promise \<times> MusicDB" where
  "savePlaylist env playlist m =
     (if \<not> db m then (Rejected (Error ''DB not initialized''), m)
      else case env (Put PLAYLISTS_STORE (playlist_id playlist)) of
        onsuccess \<Rightarrow>
          (Resolved (),
           m\<lparr>playlists_os := os_put (playlist_id playlist) playlist (playlists_os m)\<rparr>)
      | onerror \<Rightarrow> (Rejected (Message ''Error saving playlist''), m))"

definition getPlaylists :: "idb \<Rightarrow> MusicDB \<Rightarrow> Playlist list promise \<times> MusicDB" where
  "getPlaylists env m =
     (if \<not> db m then (Rejected (Error ''DB not initialized''), m)
      else case env (GetAll PLAYLISTS_STORE) of
        onsuccess \<Rightarrow> (Resolved (os_getAll (playlists_os m)), m)
      | onerror \<Rightarrow> (Rejected (Message ''Error fetching playlists''), m))"

definition deletePlaylist :: "idb \<Rightarrow> string \<Rightarrow> MusicDB \<Rightarrow> unit promise \<times> MusicDB" where
  "deletePlaylist env i m =
     (if \<not> db m then (Rejected (Error ''DB not initialized''), m)
      else case env (Delete PLAYLISTS_STORE i) of
        onsuccess \<Rightarrow> (Resolved (), m\<lparr>playlists_os := os_delete i (playlists_os m)\<rparr>)
      | onerror \<Rightarrow> (Rejected (Message ''Error deleting playlist''), m))"

definition saveSetting :: "idb \<Rightarrow> string \<Rightarrow> jsval \<Rightarrow> MusicDB \<Rightarrow> unit promise \<times> MusicDB" where
  "saveSetting env key v m =
     (if \<not> db m then (Rejected (Error ''DB not initialized''), m)
      else case env (Put SETTINGS_STORE key) of
        onsuccess \<Rightarrow> (Resolved (), m\<lparr>settings_os := os_put key v (settings_os m)\<rparr>)
      | onerror \<Rightarrow> (Rejected (Message ''Error saving setting''), m))"

text \<open>
  \<^verbatim>\<open>getSetting\<close> is the one method whose \<^verbatim>\<open>onerror\<close> handler calls \<^verbatim>\<open>resolve(null)\<close>.
  The result of a successful \<^verbatim>\<open>get\<close> on a key that has no record is \<^verbatim>\<open>undefined\<close>.
\<close>

definition getSetting :: "idb \<Rightarrow> string \<Rightarrow> MusicDB \<Rightarrow> jsval promise \<times> MusicDB" where
  "getSetting env key m =
     (if \<not> db m then (Rejected (Error ''DB not initialized''), m)
      else case env (Get SETTINGS_STORE key) of
        onsuccess \<Rightarrow>
          (Resolved (case os_get key (settings_os m) of None \<Rightarrow> JUndefined | Some v \<Rightarrow> v), m)
      | onerror \<Rightarrow> (Resolved JNull, m))"

section \<open>Application state (the component App)\<close>

text \<open>
  What the controller does to the single audio element, in the order it does it. The
  element itself belongs to the platform; the model records the calls.
\<close>

datatype audio_call =
    SetCurrentTime rat
  | SetSrc "nat list"
  | Load
  | Play
  | Pause

text \<open>
  The state variables of \<^verbatim>\<open>App\<close> that the controller reads and writes, the calls made
  on \<^verbatim>\<open>audioRef.current\<close>, and the singleton \<^verbatim>\<open>musicDB\<close>. \<^verbatim>\<open>currentTrackIndex\<close> is
  \<^verbatim>\<open>number | null\<close>. React compares the dependency \<^verbatim>\<open>currentQueue\<close> of an effect by
  reference, and every \<^verbatim>\<open>setCurrentQueue\<close> of the source passes a fresh array:
  \<open>currentQueue_ref\<close> counts them.
\<close>

record App =
  tracks :: "Track list"
  playlists :: "Playlist list"
  currentQueue :: "Track list"
  currentQueue_ref :: nat
  currentTrackIndex :: "int option"
  isPlaying :: bool
  shuffle :: jsval
  repeat :: jsval
  isReady :: bool
  audioRef :: "audio_call list"
  musicDB :: MusicDB

definition initialApp :: "MusicDB \<Rightarrow> App" where
  "initialApp m =
     \<lparr>tracks = [], playlists = [], currentQueue = [], currentQueue_ref = 0,
      currentTrackIndex = None, isPlaying = False, shuffle = JBool False,
      repeat = RepeatMode_None, isReady = False, audioRef = [], musicDB = m\<rparr>"

definition setCurrentQueue :: "Track list \<Rightarrow> App \<Rightarrow> App" where
  "setCurrentQueue q s = s\<lparr>currentQueue := q, currentQueue_ref := Suc (currentQueue_ref s)\<rparr>"

text \<open>
  \<^verbatim>\<open>currentQueue[i]\<close>: the element at a position of the array, \<^verbatim>\<open>undefined\<close> anywhere
  else.
\<close>

definition at_index :: "'a list \<Rightarrow> int \<Rightarrow> 'a option" where
  "at_index xs i = (if 0 \<le> i \<and> i < int (length xs) then Some (xs ! nat i) else None)"

text \<open>
  \<^verbatim>\<open>currentTrack = currentTrackIndex !== null ? currentQueue[currentTrackIndex] : null\<close>.
  Every reader of \<^verbatim>\<open>currentTrack\<close> treats \<^verbatim>\<open>null\<close> and \<^verbatim>\<open>undefined\<close> alike (a truth
  test or \<^verbatim>\<open>?.\<close>), so both are \<open>None\<close>.
\<close>

definition currentTrack :: "App \<Rightarrow> Track option" where
  "currentTrack s =
     (case currentTrackIndex s of
        None \<Rightarrow> None
      | Some i \<Rightarrow> at_index (currentQueue s) i)"

subsection \<open>Transport commands\<close>

text \<open>
  What the platform contributes to one call of \<^verbatim>\<open>handleNext\<close>: the number that
  \<^verbatim>\<open>Math.random() * currentQueue.length\<close> evaluates to in its floating-point arithmetic
  (read by the shuffle branch only), and what the promise of
  \<^verbatim>\<open>audioRef.current.play()\<close> settles to (read by the repeat-one branch only).
\<close>

record platform =
  scaled_random :: rat
  play_promise :: "unit promise"

text \<open>
  \<^verbatim>\<open>handleNext\<close> of the longer version of the component. In the repeat-one branch the
  handler sets the position of the audio element to 0 and calls \<^verbatim>\<open>play()\<close> with
  \<^verbatim>\<open>.catch(() => setIsPlaying(false))\<close>: a rejected request ends with the playing flag
  false. The listeners \<^verbatim>\<open>handlePlay\<close> and \<^verbatim>\<open>handlePause\<close> that \<^verbatim>\<open>init\<close> registers on the
  audio element are handlers of their own and not part of this one.
\<close>

definition handleNext :: "platform \<Rightarrow> App \<Rightarrow> App" where
  "handleNext env s =
     (if length (currentQueue s) = 0 then s
      else if repeat s = RepeatMode_One then
        (case play_promise env of
           Resolved u \<Rightarrow> s\<lparr>audioRef := audioRef s @ [SetCurrentTime 0, Play]\<rparr>
         | Rejected e \<Rightarrow>
             s\<lparr>audioRef := audioRef s @ [SetCurrentTime 0, Play], isPlaying := False\<rparr>)
      else if truthy (shuffle s) then
        s\<lparr>currentTrackIndex := Some \<lfloor>scaled_random env\<rfloor>, isPlaying := True\<rparr>
      else
        (let nextIndex = (case currentTrackIndex s of Some i \<Rightarrow> i + 1 | None \<Rightarrow> 0) in
         if nextIndex \<ge> int (length (currentQueue s)) then
           (if repeat s = RepeatMode_All then
              s\<lparr>currentTrackIndex := Some 0, isPlaying := True\<rparr>
            else s\<lparr>isPlaying := False\<rparr>)
         else s\<lparr>currentTrackIndex := Some nextIndex, isPlaying := True\<rparr>))"

text \<open>
  \<^verbatim>\<open>handleNext\<close> of \<^verbatim>\<open>App.tsx\<close>: the same, except that the callback given to \<^verbatim>\<open>catch\<close>
  is \<^verbatim>\<open>() => {}\<close>, so a rejected request changes nothing more.
\<close>

definition handleNext_App :: "platform \<Rightarrow> App \<Rightarrow> App" where
  "handleNext_App env s =
     (if length (currentQueue s) = 0 then s
      else if repeat s = RepeatMode_One then
        (case play_promise env of
           Resolved u \<Rightarrow> s\<lparr>audioRef := audioRef s @ [SetCurrentTime 0, Play]\<rparr>
         | Rejected e \<Rightarrow> s\<lparr>audioRef := audioRef s @ [SetCurrentTime 0, Play]\<rparr>)
      else if truthy (shuffle s) then
        s\<lparr>currentTrackIndex := Some \<lfloor>scaled_random env\<rfloor>, isPlaying := True\<rparr>
      else
        (let nextIndex = (case currentTrackIndex s of Some i \<Rightarrow> i + 1 | None \<Rightarrow> 0) in
         if nextIndex \<ge> int (length (currentQueue s)) then
           (if repeat s = RepeatMode_All then
              s\<lparr>currentTrackIndex := Some 0, isPlaying := True\<rparr>
            else s\<lparr>isPlaying := False\<rparr>)
         else s\<lparr>currentTrackIndex := Some nextIndex, isPlaying := True\<rparr>))"

text \<open>
  \<^verbatim>\<open>handlePrev\<close>. The remainder \<^verbatim>\<open>%\<close> of JavaScript truncates towards zero: it is
  \<open>smod\<close>.
\<close>

definition handlePrev :: "App \<Rightarrow> App" where
  "handlePrev s =
     (if length (currentQueue s) = 0 then s
      else
        (let prevIndex =
               (case currentTrackIndex s of
                  Some i \<Rightarrow> (i - 1 + int (length (currentQueue s))) smod int (length (currentQueue s))
                | None \<Rightarrow> 0)
         in s\<lparr>currentTrackIndex := Some prevIndex, isPlaying := True\<rparr>))"

definition togglePlay :: "App \<Rightarrow> App" where
  "togglePlay s = s\<lparr>isPlaying := \<not> isPlaying s\<rparr>"

text \<open>
  The click handlers of the list views all have the shape
  \<^verbatim>\<open>setCurrentQueue(list); setCurrentTrackIndex(i); setIsPlaying(true)\<close>, where \<open>i\<close> is
  the position of the clicked row in \<open>list\<close> (or 0 for the play-all button, which is
  disabled on an empty list).
\<close>

definition setQueueAndPlay :: "Track list \<Rightarrow> int \<Rightarrow> App \<Rightarrow> App" where
  "setQueueAndPlay list i s =
     (setCurrentQueue list s)\<lparr>currentTrackIndex := Some i, isPlaying := True\<rparr>"

subsection \<open>Startup\<close>

text \<open>
  \<^verbatim>\<open>init\<close>, the asynchronous function of the mount effect. Each \<^verbatim>\<open>await\<close> on a rejected
  promise ends the function there, with what was set before. The index is restored when
  \<^verbatim>\<open>typeof lastIndex === 'number' && storedTracks[lastIndex]\<close>; shuffle and repeat are
  restored when the stored value is not \<^verbatim>\<open>null\<close>, so also when it is \<^verbatim>\<open>undefined\<close>.
  Registering the listeners of the audio element is left to the platform.
\<close>

definition init :: "idb \<Rightarrow> App \<Rightarrow> unit promise \<times> App" where
  "init env s =
     (case MusicDB_init env (musicDB s) of
        (Rejected e, m) \<Rightarrow> (Rejected e, s\<lparr>musicDB := m\<rparr>)
      | (Resolved u, m) \<Rightarrow>
     (case getAllTracks env m of
        (Rejected e, m1) \<Rightarrow> (Rejected e, s\<lparr>musicDB := m\<rparr>)
      | (Resolved storedTracks, m1) \<Rightarrow>
     (case getPlaylists env m of
        (Rejected e, m2) \<Rightarrow> (Rejected e, s\<lparr>musicDB := m\<rparr>)
      | (Resolved storedPlaylists, m2) \<Rightarrow>
     (case getSetting env ''shuffle'' m of
        (Rejected e, m3) \<Rightarrow> (Rejected e, s\<lparr>musicDB := m\<rparr>)
      | (Resolved lastShuffle, m3) \<Rightarrow>
     (case getSetting env ''repeat'' m of
        (Rejected e, m4) \<Rightarrow> (Rejected e, s\<lparr>musicDB := m\<rparr>)
      | (Resolved lastRepeat, m4) \<Rightarrow>
     (let s1 = setCurrentQueue storedTracks
                 (s\<lparr>musicDB := m, tracks := storedTracks, playlists := storedPlaylists\<rparr>)
      in
     (case getSetting env ''lastTrackIndex'' m of
        (Rejected e, m5) \<Rightarrow> (Rejected e, s1)
      | (Resolved lastIndex, m5) \<Rightarrow>
     (let s2 = (case lastIndex of
                  JNum i \<Rightarrow>
                    (if at_index storedTracks i \<noteq> None
                     then s1\<lparr>currentTrackIndex := Some i\<rparr> else s1)
                | JUndefined \<Rightarrow> s1 | JNull \<Rightarrow> s1 | JBool b \<Rightarrow> s1 | JStr t \<Rightarrow> s1);
          s3 = (if lastShuffle \<noteq> JNull then s2\<lparr>shuffle := lastShuffle\<rparr> else s2);
          s4 = (if lastRepeat \<noteq> JNull then s3\<lparr>repeat := lastRepeat\<rparr> else s3)
      in (Resolved (), s4\<lparr>isReady := True\<rparr>)))))))))"

subsection \<open>Effects\<close>

text \<open>
  The three effects of the longer version of the component that touch the audio element
  or the settings store, in the order the component declares them: on \<^verbatim>\<open>[isPlaying]\<close>,
  on \<^verbatim>\<open>[currentTrackIndex, currentQueue]\<close> and on \<^verbatim>\<open>[shuffle, repeat, isReady]\<close>. The
  promises of \<^verbatim>\<open>saveSetting\<close> are not awaited: a rejected one changes nothing. The
  callbacks that the two \<^verbatim>\<open>play()\<close> calls of the effects give to \<^verbatim>\<open>catch\<close> write a
  state variable and so belong to a later render; they, object URLs and the media session
  are left out.
\<close>

definition playingEffect :: "App \<Rightarrow> App" where
  "playingEffect s = s\<lparr>audioRef := audioRef s @ [if isPlaying s then Play else Pause]\<rparr>"

definition loadEffect :: "idb \<Rightarrow> App \<Rightarrow> App" where
  "loadEffect env s =
     (case currentTrackIndex s of
        None \<Rightarrow> s
      | Some i \<Rightarrow>
          (case at_index (currentQueue s) i of
             None \<Rightarrow> s
           | Some track \<Rightarrow>
               s\<lparr>audioRef := audioRef s @ [SetSrc (blob track), Load]
                                @ (if isPlaying s then [Play] else []),
                 musicDB := snd (saveSetting env ''lastTrackIndex'' (JNum i) (musicDB s))\<rparr>))"

definition saveModeEffect :: "idb \<Rightarrow> App \<Rightarrow> App" where
  "saveModeEffect env s =
     (if isReady s then
        s\<lparr>musicDB := snd (saveSetting env ''repeat'' (repeat s)
                       (snd (saveSetting env ''shuffle'' (shuffle s) (musicDB s))))\<rparr>
      else s)"

text \<open>
  After a render, React runs the effects whose dependencies differ from those of the
  previous render \<open>prev\<close>.
\<close>

definition runEffects :: "idb \<Rightarrow> App \<Rightarrow> App \<Rightarrow> App" where
  "runEffects env prev s =
     (let s1 = (if isPlaying s \<noteq> isPlaying prev then playingEffect s else s);
          s2 = (if currentTrackIndex s \<noteq> currentTrackIndex prev
                   \<or> currentQueue_ref s \<noteq> currentQueue_ref prev
                then loadEffect env s1 else s1);
          s3 = (if shuffle s \<noteq> shuffle prev \<or> repeat s \<noteq> repeat prev
                   \<or> isReady s \<noteq> isReady prev
                then saveModeEffect env s2 else s2)
      in s3)"

subsection \<open>Library and playlists\<close>

text \<open>
  \<^verbatim>\<open>for (const p of updatedPlaylists) await musicDB.savePlaylist(p)\<close>: the first rejected
  save ends the loop and the function around it.
\<close>

fun savePlaylists :: "idb \<Rightarrow> Playlist list \<Rightarrow> MusicDB \<Rightarrow> unit promise \<times> MusicDB" where
  "savePlaylists env [] m = (Resolved (), m)"
| "savePlaylists env (p # ps) m =
     (case savePlaylist env p m of
        (Rejected e, m') \<Rightarrow> (Rejected e, m')
      | (Resolved u, m') \<Rightarrow> savePlaylists env ps m')"

text \<open>
  \<^verbatim>\<open>removeTrack\<close> of the longer version of the component. \<^verbatim>\<open>currentTrack\<close> and
  \<^verbatim>\<open>playlists\<close> are the values of the render in which the handler was created, here the
  state the command starts in.
\<close>

definition removeTrack :: "idb \<Rightarrow> string \<Rightarrow> App \<Rightarrow> unit promise \<times> App" where
  "removeTrack env i s =
     (case deleteTrack env i (musicDB s) of
        (Rejected e, m) \<Rightarrow> (Rejected e, s\<lparr>musicDB := m\<rparr>)
      | (Resolved u, m) \<Rightarrow>
     (let updatedPlaylists =
            map (\<lambda>p. p\<lparr>trackIds := filter (\<lambda>tid. tid \<noteq> i) (trackIds p)\<rparr>) (playlists s);
          s1 = setCurrentQueue (filter (\<lambda>t. track_id t \<noteq> i) (currentQueue s))
                 (s\<lparr>musicDB := m, tracks := filter (\<lambda>t. track_id t \<noteq> i) (tracks s)\<rparr>);
          s2 = s1\<lparr>playlists := updatedPlaylists\<rparr>
      in
     (case savePlaylists env updatedPlaylists m of
        (Rejected e, m') \<Rightarrow> (Rejected e, s2\<lparr>musicDB := m'\<rparr>)
      | (Resolved u', m') \<Rightarrow>
          (Resolved (),
           (if map_option track_id (currentTrack s) = Some i
            then s2\<lparr>musicDB := m', isPlaying := False, currentTrackIndex := None\<rparr>
            else s2\<lparr>musicDB := m'\<rparr>)))))"

text \<open>\<^verbatim>\<open>removeTrack\<close> of \<^verbatim>\<open>App.tsx\<close>, which does not touch the playlists.\<close>

definition removeTrack_App :: "idb \<Rightarrow> string \<Rightarrow> App \<Rightarrow> unit promise \<times> App" where
  "removeTrack_App env i s =
     (case deleteTrack env i (musicDB s) of
        (Rejected e, m) \<Rightarrow> (Rejected e, s\<lparr>musicDB := m\<rparr>)
      | (Resolved u, m) \<Rightarrow>
     (let s1 = setCurrentQueue (filter (\<lambda>t. track_id t \<noteq> i) (currentQueue s))
                 (s\<lparr>musicDB := m, tracks := filter (\<lambda>t. track_id t \<noteq> i) (tracks s)\<rparr>)
      in
        (Resolved (),
         (if map_option track_id (currentTrack s) = Some i
          then s1\<lparr>isPlaying := False, currentTrackIndex := None\<rparr>
          else s1))))"

text \<open>
  \<^verbatim>\<open>addTrackToPlaylist\<close>, the same in both versions of the component: nothing happens
  when no playlist has the identifier or the playlist already includes the track.
\<close>

definition addTrackToPlaylist :: "idb \<Rightarrow> string \<Rightarrow> string \<Rightarrow> App \<Rightarrow> unit promise \<times> App" where
  "addTrackToPlaylist env playlistId trackId s =
     (case find (\<lambda>p. playlist_id p = playlistId) (playlists s) of
        None \<Rightarrow> (Resolved (), s)
      | Some playlist \<Rightarrow>
          (if trackId \<in> set (trackIds playlist) then (Resolved (), s)
           else
             (let updatedPlaylist = playlist\<lparr>trackIds := trackIds playlist @ [trackId]\<rparr> in
              (case savePlaylist env updatedPlaylist (musicDB s) of
                 (Rejected e, m) \<Rightarrow> (Rejected e, s\<lparr>musicDB := m\<rparr>)
               | (Resolved u, m) \<Rightarrow>
                   (Resolved (),
                    s\<lparr>musicDB := m,
                      playlists := map (\<lambda>p. if playlist_id p = playlistId
                                            then updatedPlaylist else p) (playlists s)\<rparr>)))))"

text \<open>A run of insertions, each with the platform it meets.\<close>

fun addTracksToPlaylists :: "(idb \<times> string \<times> string) list \<Rightarrow> App \<Rightarrow> App" where
  "addTracksToPlaylists [] s = s"
| "addTracksToPlaylists ((env, playlistId, trackId) # rest) s =
     addTracksToPlaylists rest (snd (addTrackToPlaylist env playlistId trackId s))"

section \<open>Metadata extraction (getMetadata in handleFileImport)\<close>

record File =
  file_name :: string
  file_type :: string
  file_blob :: "nat list"

text \<open>
  What the tag reader hands to \<^verbatim>\<open>onSuccess\<close>: every level may be missing, as the guards
  \<^verbatim>\<open>tag && tag.tags && ...\<close> and \<^verbatim>\<open>tag?.tags?. ...\<close> allow for.
\<close>

record Picture =
  picture_data :: "nat list option"
  picture_format :: string

record Tags =
  tags_title :: "string option"
  tags_artist :: "string option"
  tags_album :: "string option"
  tags_picture :: "Picture option"

datatype Tag = Tag (tags: "Tags option")

datatype read_result = onSuccess "Tag option" | onError

text \<open>\<^verbatim>\<open>Partial<Track>\<close>, with the four fields the extractor fills.\<close>

record PartialTrack =
  meta_title :: "string option"
  meta_artist :: "string option"
  meta_album :: "string option"
  meta_coverUrl :: "string option"

text \<open>
  \<^verbatim>\<open>file.name.replace(/\.[^/.]+$/, "")\<close>. The pattern matches a dot followed, up to the
  end of the name, by one or more characters that are neither a dot nor a slash; so the
  dot is the last one of the name. \<open>ext\<close> is what follows the last dot.
\<close>

definition without_extension :: "string \<Rightarrow> string" where
  "without_extension name =
     (let ext = rev (takeWhile (\<lambda>c. c \<noteq> CHR ''.'') (rev name)) in
      if CHR ''.'' \<in> set name \<and> ext \<noteq> [] \<and> CHR ''/'' \<notin> set ext
      then take (length name - length ext - 1) name
      else name)"

text \<open>\<^verbatim>\<open>x || d\<close> for a string that may be missing: the empty string is falsy too.\<close>

definition or_else :: "string option \<Rightarrow> string \<Rightarrow> string" where
  "or_else x d = (case x of None \<Rightarrow> d | Some t \<Rightarrow> if t = [] then d else t)"

definition tag_tags :: "Tag option \<Rightarrow> Tags option" where
  "tag_tags tag = (case tag of None \<Rightarrow> None | Some t \<Rightarrow> tags t)"

text \<open>
  The data URL of the cover. \<^verbatim>\<open>new Uint8Array(data)\<close> keeps the low eight bits of each
  number and \<^verbatim>\<open>String.fromCharCode\<close> makes one character of each byte; \<open>btoa\<close> is the
  platform's Base64 encoder.
\<close>

definition data_url :: "(string \<Rightarrow> string) \<Rightarrow> string \<Rightarrow> nat list \<Rightarrow> string" where
  "data_url btoa fmt bytes = ''data:'' @ fmt @ '';base64,'' @ btoa (map char_of bytes)"

text \<open>
  \<^verbatim>\<open>getMetadata\<close> of the longer version of the component. \<open>jsmediatags\<close> is
  \<^verbatim>\<open>window.jsmediatags\<close>: \<open>None\<close> when the library is not loaded, else what its
  \<^verbatim>\<open>read\<close> reports for a file.
\<close>

definition getMetadata ::
  "(string \<Rightarrow> string) \<Rightarrow> (File \<Rightarrow> read_result) option \<Rightarrow> File \<Rightarrow> PartialTrack promise"
where
  "getMetadata btoa jsmediatags file =
     (case jsmediatags of
        None \<Rightarrow>
          Resolved \<lparr>meta_title = Some (without_extension (file_name file)),
                    meta_artist = Some ''Desconhecido'',
                    meta_album = None, meta_coverUrl = None\<rparr>
      | Some read \<Rightarrow>
          (case read file of
             onError \<Rightarrow>
               Resolved \<lparr>meta_title = Some (without_extension (file_name file)),
                         meta_artist = Some ''Desconhecido'',
                         meta_album = None, meta_coverUrl = None\<rparr>
           | onSuccess tag \<Rightarrow>
               (let coverUrl =
                      (case tag_tags tag of
                         None \<Rightarrow> []
                       | Some t \<Rightarrow>
                           (case tags_picture t of
                              None \<Rightarrow> []
                            | Some pic \<Rightarrow>
                                (case picture_data pic of
                                   None \<Rightarrow> []
                                 | Some bytes \<Rightarrow> data_url btoa (picture_format pic) bytes)))
                in
                Resolved
                  \<lparr>meta_title =
                     Some (or_else (case tag_tags tag of None \<Rightarrow> None | Some t \<Rightarrow> tags_title t)
                             (without_extension (file_name file))),
                   meta_artist =
                     Some (or_else (case tag_tags tag of None \<Rightarrow> None | Some t \<Rightarrow> tags_artist t)
                             ''Desconhecido''),
                   meta_album =
                     Some (or_else (case tag_tags tag of None \<Rightarrow> None | Some t \<Rightarrow> tags_album t)
                             ''VibePlayer''),
                   meta_coverUrl = Some coverUrl\<rparr>)))"

text \<open>
  \<^verbatim>\<open>getMetadata\<close> of \<^verbatim>\<open>App.tsx\<close>. Its two fallback results carry the title alone, and
  a successful read passes the album on as the tag has it.
\<close>

definition getMetadata_App ::
  "(string \<Rightarrow> string) \<Rightarrow> (File \<Rightarrow> read_result) option \<Rightarrow> File \<Rightarrow> PartialTrack promise"
where
  "getMetadata_App btoa jsmediatags file =
     (case jsmediatags of
        None \<Rightarrow>
          Resolved \<lparr>meta_title = Some (without_extension (file_name file)),
                    meta_artist = None, meta_album = None, meta_coverUrl = None\<rparr>
      | Some read \<Rightarrow>
          (case read file of
             onError \<Rightarrow>
               Resolved \<lparr>meta_title = Some (without_extension (file_name file)),
                         meta_artist = None, meta_album = None, meta_coverUrl = None\<rparr>
           | onSuccess tag \<Rightarrow>
               (let coverUrl =
                      (case tag_tags tag of
                         None \<Rightarrow> []
                       | Some t \<Rightarrow>
                           (case tags_picture t of
                              None \<Rightarrow> []
                            | Some pic \<Rightarrow>
                                data_url btoa (picture_format pic)
                                  (case picture_data pic of None \<Rightarrow> [] | Some bytes \<Rightarrow> bytes)))
                in
                Resolved
                  \<lparr>meta_title =
                     Some (or_else (case tag_tags tag of None \<Rightarrow> None | Some t \<Rightarrow> tags_title t)
                             (without_extension (file_name file))),
                   meta_artist =
                     Some (or_else (case tag_tags tag of None \<Rightarrow> None | Some t \<Rightarrow> tags_artist t)
                             ''Desconhecido''),
                   meta_album = (case tag_tags tag of None \<Rightarrow> None | Some t \<Rightarrow> tags_album t),
                   meta_coverUrl = Some coverUrl\<rparr>)))"

text \<open>
  The track that the import loop builds from the extractor's result, in both versions:
  \<^verbatim>\<open>title: meta.title || <name without extension>\<close>,
  \<^verbatim>\<open>artist: meta.artist || 'Desconhecido'\<close>, album and cover as they come. The fresh
  identifier, the clock and the duration (the probed one, or 0 in \<^verbatim>\<open>App.tsx\<close>) are
  arguments.
\<close>

definition importedTrack :: "string \<Rightarrow> nat \<Rightarrow> rat \<Rightarrow> File \<Rightarrow> PartialTrack \<Rightarrow> Track" where
  "importedTrack new_id now dur file meta =
     \<lparr>track_id = new_id,
      title = or_else (meta_title meta) (without_extension (file_name file)),
      artist = or_else (meta_artist meta) ''Desconhecido'',
      album = meta_album meta,
      duration = dur,
      blob = file_blob file,
      coverUrl = meta_coverUrl meta,
      addedAt = now,
      isFavorite = Some False\<rparr>"

section \<open>The queue invariant and example inputs\<close>

text \<open>The index, when it is not \<^verbatim>\<open>null\<close>, is a position of the current queue.\<close>

definition index_valid :: "App \<Rightarrow> bool" where
  "index_valid s =
     (case currentTrackIndex s of
        None \<Rightarrow> True
      | Some i \<Rightarrow> 0 \<le> i \<and> i < int (length (currentQueue s)))"

text \<open>Three tracks, a playlist, an empty database and two platforms, for concrete runs.\<close>

definition track_a :: Track where
  "track_a = \<lparr>track_id = ''a'', title = ''A'', artist = ''Desconhecido'', album = None,
     duration = 0, blob = [], coverUrl = None, addedAt = 1, isFavorite = Some False\<rparr>"

definition track_b :: Track where
  "track_b = \<lparr>track_id = ''b'', title = ''B'', artist = ''Desconhecido'', album = None,
     duration = 0, blob = [], coverUrl = None, addedAt = 2, isFavorite = Some False\<rparr>"

definition track_c :: Track where
  "track_c = \<lparr>track_id = ''c'', title = ''C'', artist = ''Desconhecido'', album = None,
     duration = 0, blob = [], coverUrl = None, addedAt = 3, isFavorite = Some False\<rparr>"

definition playlist_p :: Playlist where
  "playlist_p = \<lparr>playlist_id = ''p'', playlist_name = ''P'', trackIds = [''a''], createdAt = 4\<rparr>"

definition empty_db :: MusicDB where
  "empty_db = \<lparr>db = False, tracks_os = [], playlists_os = [], settings_os = []\<rparr>"

definition all_succeed :: idb where
  "all_succeed = (\<lambda>r. onsuccess)"

definition all_fail :: idb where
  "all_fail = (\<lambda>r. onerror)"

definition open_db :: MusicDB where
  "open_db = \<lparr>db = True, tracks_os = [], playlists_os = [], settings_os = []\<rparr>"

text \<open>
  A database as a previous session left it: two tracks, a playlist that holds the first
  of them, and the settings, the second track being the last one played.
\<close>

definition stored_db :: MusicDB where
  "stored_db = \<lparr>db = False,
     tracks_os = [(''a'', track_a), (''b'', track_b)],
     playlists_os = [(''p'', playlist_p)],
     settings_os = [(''lastTrackIndex'', JNum 1), (''repeat'', RepeatMode_None),
                    (''shuffle'', JBool False)]\<rparr>"

definition app_with_playlist :: App where
  "app_with_playlist =
     (initialApp open_db)\<lparr>tracks := [track_a, track_b], playlists := [playlist_p]\<rparr>"

definition song_file :: File where
  "song_file = \<lparr>file_name = ''song.mp3'', file_type = ''audio/mpeg'', file_blob = []\<rparr>"

text \<open>A platform that accepts the request to play, and one that refuses it.\<close>

definition accepting :: platform where
  "accepting = \<lparr>scaled_random = 0, play_promise = Resolved ()\<rparr>"

definition refusing :: platform where
  "refusing = \<lparr>scaled_random = 1 / 2, play_promise = Rejected (Error ''NotAllowedError'')\<rparr>"

text \<open>A player with a given queue, index, repeat mode and shuffle flag, playing.\<close>

definition player :: "Track list \<Rightarrow> int option \<Rightarrow> jsval \<Rightarrow> jsval \<Rightarrow> App" where
  "player q i r sh =
     (initialApp empty_db)\<lparr>tracks := q, currentQueue := q, currentTrackIndex := i,
                            isPlaying := True, shuffle := sh, repeat := r, isReady := True\<rparr>"

section \<open>Transport: next and previous\<close>

text \<open>The two versions of \<^verbatim>\<open>handleNext\<close> differ in the repeat-one branch only.\<close>

lemma handleNext_App_eq:
  assumes "repeat s \<noteq> RepeatMode_One"
  shows "handleNext_App env s = handleNext env s"
  using assms by (simp add: handleNext_def handleNext_App_def)

lemma handleNext_repeat_all:
  assumes "currentQueue s \<noteq> []" and "repeat s = RepeatMode_All" and "\<not> truthy (shuffle s)"
    and "currentTrackIndex s = Some i" and "0 \<le> i" and "i < int (length (currentQueue s))"
  shows "handleNext env s =
           s\<lparr>currentTrackIndex := Some ((i + 1) mod int (length (currentQueue s))),
             isPlaying := True\<rparr>"
proof (cases "i + 1 < int (length (currentQueue s))")
  case True
  with assms show ?thesis
    by (simp add: handleNext_def RepeatMode_One_def RepeatMode_All_def)
next
  case False
  with assms have "i + 1 = int (length (currentQueue s))" by simp
  with assms show ?thesis
    by (simp add: handleNext_def RepeatMode_One_def RepeatMode_All_def)
qed

lemma fold_handleNext_repeat_all:
  assumes "currentQueue s \<noteq> []" and "repeat s = RepeatMode_All" and "\<not> truthy (shuffle s)"
    and "currentTrackIndex s = Some i" and "0 \<le> i" and "i < int (length (currentQueue s))"
  shows "fold handleNext envs s =
           s\<lparr>currentTrackIndex :=
               Some ((i + int (length envs)) mod int (length (currentQueue s))),
             isPlaying := (if envs = [] then isPlaying s else True)\<rparr>"
  using assms
proof (induction envs arbitrary: s i)
  case Nil
  then show ?case by simp
next
  case (Cons r rs)
  let ?n = "int (length (currentQueue s))"
  let ?s' = "s\<lparr>currentTrackIndex := Some ((i + 1) mod ?n), isPlaying := True\<rparr>"
  have step: "handleNext r s = ?s'"
    using Cons.prems by (rule handleNext_repeat_all)
  have n: "0 < ?n"
    using Cons.prems by simp
  have "fold handleNext rs ?s' =
          ?s'\<lparr>currentTrackIndex :=
                Some (((i + 1) mod ?n + int (length rs)) mod int (length (currentQueue ?s'))),
              isPlaying := (if rs = [] then isPlaying ?s' else True)\<rparr>"
    using Cons.prems n by (intro Cons.IH) simp_all
  moreover have "((i + 1) mod ?n + int (length rs)) mod ?n = (i + int (length (r # rs))) mod ?n"
  proof -
    have "((i + 1) mod ?n + int (length rs)) mod ?n = ((i + 1) + int (length rs)) mod ?n"
      by (rule mod_add_left_eq)
    also have "(i + 1) + int (length rs) = i + int (length (r # rs))"
      by simp
    finally show ?thesis .
  qed
  ultimately show ?case
    using step by simp
qed

text \<open>With a repeat mode other than one, a run of the one version is a run of the other.\<close>

lemma fold_handleNext_App_repeat_all:
  assumes "currentQueue s \<noteq> []" and "repeat s = RepeatMode_All" and "\<not> truthy (shuffle s)"
    and "currentTrackIndex s = Some i" and "0 \<le> i" and "i < int (length (currentQueue s))"
  shows "fold handleNext_App envs s = fold handleNext envs s"
  using assms
proof (induction envs arbitrary: s i)
  case Nil
  then show ?case by simp
next
  case (Cons r rs)
  let ?n = "int (length (currentQueue s))"
  let ?s' = "s\<lparr>currentTrackIndex := Some ((i + 1) mod ?n), isPlaying := True\<rparr>"
  have ne: "repeat s \<noteq> RepeatMode_One"
    using Cons.prems by (simp add: RepeatMode_One_def RepeatMode_All_def)
  have step: "handleNext r s = ?s'"
    using Cons.prems by (rule handleNext_repeat_all)
  have n: "0 < ?n"
    using Cons.prems by simp
  have "fold handleNext_App rs ?s' = fold handleNext rs ?s'"
    using Cons.prems n by (intro Cons.IH [of ?s' "(i + 1) mod ?n"]) simp_all
  then show ?case
    using step handleNext_App_eq [OF ne, of r] by simp
qed

text \<open>
  Claim C3. On a non-empty queue, with repeat \<^verbatim>\<open>None\<close> and shuffle off, \<^verbatim>\<open>handleNext\<close> at
  the last position sets the playing flag to false and leaves the index where it is;
  nothing else of the state changes either, in both versions of the handler.
\<close>

theorem next_at_last_index_stops:
  assumes "currentQueue s \<noteq> []"
    and "repeat s = RepeatMode_None"
    and "\<not> truthy (shuffle s)"
    and "currentTrackIndex s = Some (int (length (currentQueue s)) - 1)"
  shows "isPlaying (handleNext env s) = False
       \<and> currentTrackIndex (handleNext env s) = currentTrackIndex s
       \<and> handleNext env s = s\<lparr>isPlaying := False\<rparr>
       \<and> handleNext_App env s = s\<lparr>isPlaying := False\<rparr>"
  using assms
  by (simp add: handleNext_def handleNext_App_def
        RepeatMode_None_def RepeatMode_One_def RepeatMode_All_def)

theorem next_at_last_index_stops_witness:
  "currentQueue (player [track_a, track_b] (Some 1) RepeatMode_None (JBool False)) \<noteq> []
   \<and> isPlaying (player [track_a, track_b] (Some 1) RepeatMode_None (JBool False))
   \<and> isPlaying
       (handleNext accepting (player [track_a, track_b] (Some 1) RepeatMode_None (JBool False)))
       = False
   \<and> currentTrackIndex
        (handleNext accepting
           (player [track_a, track_b] (Some 1) RepeatMode_None (JBool False)))
       = Some 1"
proof -
  let ?s = "player [track_a, track_b] (Some 1) RepeatMode_None (JBool False)"
  have h: "currentQueue ?s \<noteq> []" "repeat ?s = RepeatMode_None" "\<not> truthy (shuffle ?s)"
    "currentTrackIndex ?s = Some (int (length (currentQueue ?s)) - 1)"
    by (simp_all add: player_def initialApp_def)
  have p: "isPlaying ?s" "currentTrackIndex ?s = Some 1"
    by (simp_all add: player_def initialApp_def)
  show ?thesis
    using next_at_last_index_stops [OF h, of accepting] h(1) p by simp
qed

text \<open>
  Claim C4. On a non-empty queue with repeat \<^verbatim>\<open>All\<close> and shuffle off, one \<^verbatim>\<open>handleNext\<close>
  from a valid index \<open>i\<close> gives \<open>(i + 1) mod length\<close>; as many calls as the queue is
  long bring the index back to \<open>i\<close>, and any smaller positive number of calls does not.
  The list \<open>envs\<close> holds the platform of each call (none of it is read here), and the
  same holds for a run of the handler of \<^verbatim>\<open>App.tsx\<close>.
\<close>

theorem next_repeat_all_cycles:
  assumes "currentQueue s \<noteq> []"
    and "repeat s = RepeatMode_All"
    and "\<not> truthy (shuffle s)"
    and "currentTrackIndex s = Some i"
    and "0 \<le> i"
    and "i < int (length (currentQueue s))"
  shows "currentTrackIndex (handleNext env s) = Some ((i + 1) mod int (length (currentQueue s)))
       \<and> (length envs = length (currentQueue s) \<longrightarrow>
            currentTrackIndex (fold handleNext envs s) = Some i)
       \<and> (0 < length envs \<and> length envs < length (currentQueue s) \<longrightarrow>
            currentTrackIndex (fold handleNext envs s) \<noteq> Some i)
       \<and> fold handleNext_App envs s = fold handleNext envs s"
proof (intro conjI impI)
  let ?n = "int (length (currentQueue s))"
  have many: "currentTrackIndex (fold handleNext envs s) = Some ((i + int (length envs)) mod ?n)"
    using fold_handleNext_repeat_all [OF assms, of envs] by simp
  show "currentTrackIndex (handleNext env s) = Some ((i + 1) mod ?n)"
    using handleNext_repeat_all [OF assms, of env] by simp
  show "currentTrackIndex (fold handleNext envs s) = Some i"
    if "length envs = length (currentQueue s)"
  proof -
    have "(i + int (length envs)) mod ?n = i"
      using assms(5,6) that by simp
    with many show ?thesis by simp
  qed
  show "currentTrackIndex (fold handleNext envs s) \<noteq> Some i"
    if k: "0 < length envs \<and> length envs < length (currentQueue s)"
  proof (cases "i + int (length envs) < ?n")
    case True
    with assms(5) have "(i + int (length envs)) mod ?n = i + int (length envs)"
      by simp
    with many k show ?thesis by simp
  next
    case False
    have "(i + int (length envs)) mod ?n = (i + int (length envs) - ?n) mod ?n"
      by simp
    also have "\<dots> = i + int (length envs) - ?n"
      using False assms(5,6) k by (intro mod_pos_pos_trivial) linarith+
    finally show ?thesis using many k by simp
  qed
  show "fold handleNext_App envs s = fold handleNext envs s"
    using assms by (rule fold_handleNext_App_repeat_all)
qed

theorem next_repeat_all_cycles_witness:
  "currentTrackIndex
     (handleNext accepting
        (player [track_a, track_b, track_c] (Some 2) RepeatMode_All (JBool False)))
     = Some 0
   \<and> currentTrackIndex
       (fold handleNext [accepting, refusing, accepting]
          (player [track_a, track_b, track_c] (Some 2) RepeatMode_All (JBool False)))
     = Some 2"
proof -
  let ?s = "player [track_a, track_b, track_c] (Some 2) RepeatMode_All (JBool False)"
  have h: "currentQueue ?s \<noteq> []" "repeat ?s = RepeatMode_All" "\<not> truthy (shuffle ?s)"
    "currentTrackIndex ?s = Some 2" "(0::int) \<le> 2" "2 < int (length (currentQueue ?s))"
    by (simp_all add: player_def initialApp_def)
  have n: "length [accepting, refusing, accepting] = length (currentQueue ?s)"
    "(2 + 1) mod int (length (currentQueue ?s)) = 0"
    by (simp_all add: player_def initialApp_def)
  show ?thesis
    using next_repeat_all_cycles [OF h, of accepting "[accepting, refusing, accepting]"] n
    by simp
qed




text \<open>
  Claim C6. On a queue of length at least 1 and a valid index \<open>i\<close>, \<^verbatim>\<open>handlePrev\<close> sets
  the index to \<open>(i - 1 + length) mod length\<close>, which is \<open>length - 1\<close> at \<open>i = 0\<close>, and sets
  the playing flag; repeat and shuffle are not read, so this holds for all their values.
\<close>

theorem prev_wraps:
  assumes "1 \<le> length (currentQueue s)"
    and "currentTrackIndex s = Some i"
    and "0 \<le> i"
    and "i < int (length (currentQueue s))"
  shows "currentTrackIndex (handlePrev s)
           = Some ((i - 1 + int (length (currentQueue s))) mod int (length (currentQueue s)))
       \<and> isPlaying (handlePrev s)
       \<and> (i = 0 \<longrightarrow> currentTrackIndex (handlePrev s) = Some (int (length (currentQueue s)) - 1))"
proof -
  let ?n = "int (length (currentQueue s))"
  have q: "currentQueue s \<noteq> []" using assms(1) by auto
  have sm: "(i - 1 + ?n) smod ?n = (i - 1 + ?n) mod ?n"
    using assms by (intro smod_mod_positive) simp_all
  have idx: "currentTrackIndex (handlePrev s) = Some ((i - 1 + ?n) mod ?n)"
    using q assms(2) sm by (simp add: handlePrev_def)
  have pl: "isPlaying (handlePrev s)"
    using q by (simp add: handlePrev_def Let_def)
  have zero: "(i - 1 + ?n) mod ?n = ?n - 1" if "i = 0"
  proof -
    have "i - 1 + ?n = ?n - 1" using that by simp
    moreover have "(?n - 1) mod ?n = ?n - 1"
      using q by (intro mod_pos_pos_trivial) simp_all
    ultimately show ?thesis by (simp only:)
  qed
  show ?thesis using idx pl zero by simp
qed

theorem prev_wraps_witness:
  "currentTrackIndex
     (handlePrev (player [track_a, track_b, track_c] (Some 0) RepeatMode_None (JBool True)))
     = Some 2
   \<and> isPlaying
       (handlePrev (player [track_a, track_b, track_c] (Some 0) RepeatMode_None (JBool True)))"
proof -
  let ?s = "player [track_a, track_b, track_c] (Some 0) RepeatMode_None (JBool True)"
  have h: "1 \<le> length (currentQueue ?s)" "currentTrackIndex ?s = Some 0" "(0::int) \<le> 0"
    "0 < int (length (currentQueue ?s))"
    by (simp_all add: player_def initialApp_def)
  have n: "int (length (currentQueue ?s)) - 1 = 2"
    by (simp add: player_def initialApp_def)
  show ?thesis
    using prev_wraps [OF h] n by simp
qed

text \<open>
  Claim C10. On an empty queue \<^verbatim>\<open>handleNext\<close> and \<^verbatim>\<open>handlePrev\<close> return the state they
  were given: index, playing flag, shuffle, repeat and the settings store inside
  \<open>musicDB\<close> are all unchanged, for every shuffle and repeat value. No dependency of an
  effect has changed either, so no effect runs and nothing is written to the store.
\<close>

theorem empty_queue_next_prev_noop:
  assumes "currentQueue s = []"
  shows "handleNext env s = s
       \<and> handleNext_App env s = s
       \<and> handlePrev s = s
       \<and> runEffects db_env s (handleNext env s) = s
       \<and> runEffects db_env s (handlePrev s) = s"
  using assms by (simp add: handleNext_def handleNext_App_def handlePrev_def runEffects_def)

theorem empty_queue_next_prev_noop_witness:
  "currentQueue (player [] None RepeatMode_One (JBool True)) = []
   \<and> handleNext refusing (player [] None RepeatMode_One (JBool True))
       = player [] None RepeatMode_One (JBool True)
   \<and> handlePrev (player [] None RepeatMode_One (JBool True))
       = player [] None RepeatMode_One (JBool True)
   \<and> runEffects all_succeed (player [] None RepeatMode_One (JBool True))
        (handleNext refusing (player [] None RepeatMode_One (JBool True)))
       = player [] None RepeatMode_One (JBool True)"
proof -
  have h: "currentQueue (player [] None RepeatMode_One (JBool True)) = []"
    by (simp add: player_def initialApp_def)
  show ?thesis
    using empty_queue_next_prev_noop [OF h, of refusing all_succeed] h by blast
qed

section \<open>Playlists\<close>

lemma addTrackToPlaylist_present:
  assumes "find (\<lambda>p. playlist_id p = playlistId) (playlists s) = Some playlist"
    and "trackId \<in> set (trackIds playlist)"
  shows "addTrackToPlaylist env playlistId trackId s = (Resolved (), s)"
  using assms by (simp add: addTrackToPlaylist_def)

lemma find_map_replace:
  assumes "find (\<lambda>p. playlist_id p = k) ps = Some q" and "playlist_id u = k"
  shows "find (\<lambda>p. playlist_id p = k) (map (\<lambda>p. if playlist_id p = k then u else p) ps) = Some u"
  using assms by (induction ps) (auto split: if_splits)

lemma find_Some_id:
  "find (\<lambda>p. playlist_id p = k) ps = Some q \<Longrightarrow> playlist_id q = k \<and> q \<in> set ps"
  by (induction ps) (auto split: if_splits)

lemma find_unique_id:
  assumes "distinct (map playlist_id ps)" and "p \<in> set ps"
  shows "find (\<lambda>q. playlist_id q = playlist_id p) ps = Some p"
  using assms by (induction ps) (auto simp add: image_iff)

lemma addTrackToPlaylist_again:
  assumes "addTrackToPlaylist env playlistId trackId s = (Resolved (), s')"
  shows "addTrackToPlaylist env' playlistId trackId s' = (Resolved (), s')"
proof (cases "find (\<lambda>p. playlist_id p = playlistId) (playlists s)")
  case None
  with assms have "s' = s" by (simp add: addTrackToPlaylist_def)
  with None show ?thesis by (simp add: addTrackToPlaylist_def)
next
  case (Some playlist)
  show ?thesis
  proof (cases "trackId \<in> set (trackIds playlist)")
    case True
    with Some assms have "s' = s" by (simp add: addTrackToPlaylist_def)
    with Some True show ?thesis by (simp add: addTrackToPlaylist_def)
  next
    case False
    let ?u = "playlist\<lparr>trackIds := trackIds playlist @ [trackId]\<rparr>"
    obtain m where sv: "savePlaylist env ?u (musicDB s) = (Resolved (), m)"
      and s': "s' = s\<lparr>musicDB := m,
                 playlists := map (\<lambda>p. if playlist_id p = playlistId then ?u else p) (playlists s)\<rparr>"
      using assms Some False
      by (auto simp add: addTrackToPlaylist_def Let_def split: prod.splits promise.splits)
    have "playlist_id ?u = playlistId" using find_Some_id [OF Some] by simp
    then have "find (\<lambda>p. playlist_id p = playlistId) (playlists s') = Some ?u"
      using find_map_replace [OF Some] s' by simp
    then show ?thesis by (simp add: addTrackToPlaylist_def)
  qed
qed

lemma addTrackToPlaylist_distinct:
  assumes "\<forall>p\<in>set (playlists s). distinct (trackIds p)"
  shows "\<forall>p\<in>set (playlists (snd (addTrackToPlaylist env playlistId trackId s))). distinct (trackIds p)"
proof (cases "find (\<lambda>p. playlist_id p = playlistId) (playlists s)")
  case None
  with assms show ?thesis by (simp add: addTrackToPlaylist_def)
next
  case (Some playlist)
  then have "playlist \<in> set (playlists s)" using find_Some_id by blast
  with assms have d: "distinct (trackIds playlist)" by blast
  show ?thesis
    using assms Some d
    by (auto simp add: addTrackToPlaylist_def Let_def split: prod.splits promise.splits)
qed

lemma addTracksToPlaylists_distinct:
  assumes "\<forall>p\<in>set (playlists s). distinct (trackIds p)"
  shows "\<forall>p\<in>set (playlists (addTracksToPlaylists ops s)). distinct (trackIds p)"
  using assms
proof (induction ops s rule: addTracksToPlaylists.induct)
  case (1 s)
  then show ?case by simp
next
  case (2 env playlistId trackId rest s)
  then show ?case using addTrackToPlaylist_distinct by simp
qed

text \<open>
  Claim C7. \<^verbatim>\<open>addTrackToPlaylist\<close> is idempotent. When the playlist it looks up already
  holds the track identifier, the call changes nothing; with playlist identifiers that
  are unique, that is every playlist of the state that holds the track. Hence a second
  call with the same arguments, after one that resolved, changes nothing; and a run of
  insertions that starts from playlists without repeated track identifiers ends in
  playlists without repeated track identifiers, whatever the storage does on the way.
\<close>

theorem addTrackToPlaylist_idempotent:
  "(find (\<lambda>p. playlist_id p = playlistId) (playlists s) = Some playlist
      \<and> trackId \<in> set (trackIds playlist) \<longrightarrow>
        addTrackToPlaylist env playlistId trackId s = (Resolved (), s))
   \<and> (distinct (map playlist_id (playlists s)) \<and> playlist \<in> set (playlists s)
      \<and> trackId \<in> set (trackIds playlist) \<longrightarrow>
        addTrackToPlaylist env (playlist_id playlist) trackId s = (Resolved (), s))
   \<and> (addTrackToPlaylist env playlistId trackId s = (Resolved (), s') \<longrightarrow>
        addTrackToPlaylist env' playlistId trackId s' = (Resolved (), s'))
   \<and> ((\<forall>p\<in>set (playlists s). distinct (trackIds p)) \<longrightarrow>
        (\<forall>p\<in>set (playlists (addTracksToPlaylists ops s)). distinct (trackIds p)))"
  using addTrackToPlaylist_present [of playlistId s playlist trackId env]
        addTrackToPlaylist_present [of "playlist_id playlist" s playlist trackId env]
        find_unique_id [of "playlists s" playlist]
        addTrackToPlaylist_again [of env playlistId trackId s s' env']
        addTracksToPlaylists_distinct [of s ops]
  by blast

theorem addTrackToPlaylist_idempotent_witness:
  "find (\<lambda>p. playlist_id p = ''p'') (playlists app_with_playlist) = Some playlist_p
   \<and> ''a'' \<in> set (trackIds playlist_p)
   \<and> addTrackToPlaylist all_succeed ''p'' ''a'' app_with_playlist
       = (Resolved (), app_with_playlist)
   \<and> map trackIds
       (playlists (addTracksToPlaylists
          [(all_succeed, ''p'', ''b''), (all_fail, ''p'', ''c''), (all_succeed, ''p'', ''b'')]
          app_with_playlist)) = [[''a'', ''b'']]
   \<and> distinct (trackIds (hd (playlists (addTracksToPlaylists
          [(all_succeed, ''p'', ''b''), (all_fail, ''p'', ''c''), (all_succeed, ''p'', ''b'')]
          app_with_playlist))))"
proof -
  let ?ops = "[(all_succeed, ''p'', ''b''), (all_fail, ''p'', ''c''), (all_succeed, ''p'', ''b'')]"
  have f: "find (\<lambda>p. playlist_id p = ''p'') (playlists app_with_playlist) = Some playlist_p"
    and a: "''a'' \<in> set (trackIds playlist_p)"
    and d: "\<forall>p\<in>set (playlists app_with_playlist). distinct (trackIds p)"
    by (simp_all add: app_with_playlist_def initialApp_def playlist_p_def)
  have run: "map trackIds (playlists (addTracksToPlaylists ?ops app_with_playlist)) = [[''a'', ''b'']]"
    by (simp add: app_with_playlist_def initialApp_def playlist_p_def addTrackToPlaylist_def
          savePlaylist_def open_db_def all_succeed_def all_fail_def Let_def)
  then have "hd (playlists (addTracksToPlaylists ?ops app_with_playlist))
               \<in> set (playlists (addTracksToPlaylists ?ops app_with_playlist))"
    by (intro hd_in_set) auto
  then show ?thesis
    using addTrackToPlaylist_idempotent
            [of "''p''" app_with_playlist playlist_p "''a''" all_succeed _ _ ?ops]
          f a d run
    by blast
qed

section \<open>Deleting a track\<close>

lemma savePlaylists_tracks_os:
  "savePlaylists env ps m = (r, m') \<Longrightarrow> tracks_os m' = tracks_os m"
proof (induction ps arbitrary: m)
  case Nil
  then show ?case by simp
next
  case (Cons p ps)
  then show ?case
    by (auto simp add: savePlaylist_def split: if_splits idb_event.splits)
qed

lemma removeTrack_resolved:
  assumes "removeTrack env i s = (Resolved (), s')"
  shows "tracks s' = filter (\<lambda>t. track_id t \<noteq> i) (tracks s)
       \<and> currentQueue s' = filter (\<lambda>t. track_id t \<noteq> i) (currentQueue s)
       \<and> playlists s' = map (\<lambda>p. p\<lparr>trackIds := filter (\<lambda>tid. tid \<noteq> i) (trackIds p)\<rparr>) (playlists s)
       \<and> tracks_os (musicDB s') = os_delete i (tracks_os (musicDB s))
       \<and> (map_option track_id (currentTrack s) = Some i \<longrightarrow>
            \<not> isPlaying s' \<and> currentTrackIndex s' = None)"
proof -
  from assms obtain m where del: "deleteTrack env i (musicDB s) = (Resolved (), m)"
    by (auto simp add: removeTrack_def split: prod.splits promise.splits)
  then have m: "tracks_os m = os_delete i (tracks_os (musicDB s))"
    by (auto simp add: deleteTrack_def split: if_splits idb_event.splits)
  let ?ps = "map (\<lambda>p. p\<lparr>trackIds := filter (\<lambda>tid. tid \<noteq> i) (trackIds p)\<rparr>) (playlists s)"
  from assms del obtain m' where sv: "savePlaylists env ?ps m = (Resolved (), m')"
    by (auto simp add: removeTrack_def Let_def split: prod.splits promise.splits)
  have m': "tracks_os m' = tracks_os m" using sv by (rule savePlaylists_tracks_os)
  show ?thesis
    using assms del sv m m'
    by (auto simp add: removeTrack_def Let_def setCurrentQueue_def)
qed

lemma os_delete_key: "i \<notin> fst ` set (os_delete i xs)"
  by (auto simp add: os_delete_def)

text \<open>
  In the longer version of the component a deletion that resolves has removed the track
  from the in-memory library, from the tracks store, from the queue and from every
  playlist, and has stopped playback and cleared the index when the track was the
  current one.
\<close>

lemma removeTrack_cascades:
  assumes "removeTrack env i s = (Resolved (), s')"
  shows "i \<notin> track_id ` set (tracks s')
       \<and> i \<notin> fst ` set (tracks_os (musicDB s'))
       \<and> i \<notin> track_id ` set (currentQueue s')
       \<and> (\<forall>p\<in>set (playlists s'). i \<notin> set (trackIds p))
       \<and> (map_option track_id (currentTrack s) = Some i \<longrightarrow>
            \<not> isPlaying s' \<and> currentTrackIndex s' = None)"
  using removeTrack_resolved [OF assms] os_delete_key [of i "tracks_os (musicDB s)"]
  by auto

text \<open>
  Claim C1. Deleting a track removes it from the track store and from every playlist's
  sequence, and stops playback and clears the index when it is the active queue entry.
  \<^verbatim>\<open>removeTrack\<close> of \<^verbatim>\<open>App.tsx\<close> does not do the second part: after the session of
  \<open>stored_db\<close> is restored and track \<open>a\<close> is deleted with every storage request
  succeeding, the track is gone from the library, and the playlist still lists \<open>a\<close>. The
  other version of the handler empties the playlist on the same input.
\<close>

theorem removeTrack_App_keeps_playlist_entry:
  "fst (removeTrack_App all_succeed ''a'' (snd (init all_succeed (initialApp stored_db))))
     = Resolved ()
   \<and> map track_id
       (tracks (snd (removeTrack_App all_succeed ''a''
                       (snd (init all_succeed (initialApp stored_db)))))) = [''b'']
   \<and> map trackIds
       (playlists (snd (removeTrack_App all_succeed ''a''
                          (snd (init all_succeed (initialApp stored_db)))))) = [[''a'']]
   \<and> map trackIds
       (playlists (snd (removeTrack all_succeed ''a''
                          (snd (init all_succeed (initialApp stored_db)))))) = [[]]"
  by (simp add: init_def initialApp_def stored_db_def all_succeed_def MusicDB_init_def
        getAllTracks_def getPlaylists_def getSetting_def os_getAll_def os_get_def
        setCurrentQueue_def at_index_def SETTINGS_STORE_def removeTrack_App_def removeTrack_def
        deleteTrack_def savePlaylist_def os_delete_def currentTrack_def
        track_a_def track_b_def playlist_p_def RepeatMode_None_def Let_def
        TRACKS_STORE_def PLAYLISTS_STORE_def)

section \<open>The queue invariant\<close>

text \<open>
  In the shuffle branch the index is the floor of the platform's product, which lies in
  \<open>[0, length)\<close> because \<^verbatim>\<open>Math.random()\<close> is below 1; that bound on the floating-point
  product is a hypothesis here.
\<close>

lemma handleNext_index_valid:
  assumes "index_valid s"
    and "0 \<le> scaled_random env"
    and "currentQueue s \<noteq> [] \<Longrightarrow> scaled_random env < of_nat (length (currentQueue s))"
  shows "index_valid (handleNext env s) \<and> index_valid (handleNext_App env s)"
proof -
  let ?n = "length (currentQueue s)"
  have fl: "0 \<le> \<lfloor>scaled_random env\<rfloor> \<and> \<lfloor>scaled_random env\<rfloor> < int ?n" if "?n \<noteq> 0"
  proof -
    have "scaled_random env < of_int (int ?n)" using assms(3) that by simp
    then have "\<lfloor>scaled_random env\<rfloor> < int ?n" by (simp only: floor_less_iff)
    moreover have "0 \<le> \<lfloor>scaled_random env\<rfloor>" using assms(2) by simp
    ultimately show ?thesis by simp
  qed
  show ?thesis
    using assms(1) fl
    by (cases "play_promise env")
       (auto simp add: handleNext_def handleNext_App_def index_valid_def Let_def
          split: option.splits)
qed

lemma handlePrev_index_valid:
  assumes "index_valid s"
  shows "index_valid (handlePrev s)"
proof (cases "currentQueue s = []")
  case True
  with assms show ?thesis by (simp add: handlePrev_def)
next
  case False
  let ?n = "int (length (currentQueue s))"
  have n: "0 < ?n" using False by simp
  show ?thesis
  proof (cases "currentTrackIndex s")
    case None
    with False n show ?thesis by (simp add: handlePrev_def index_valid_def)
  next
    case (Some i)
    with assms have i: "0 \<le> i" "i < ?n" by (simp_all add: index_valid_def)
    have "(i - 1 + ?n) smod ?n = (i - 1 + ?n) mod ?n"
      using i n by (intro smod_mod_positive) simp_all
    moreover have "0 \<le> (i - 1 + ?n) mod ?n" "(i - 1 + ?n) mod ?n < ?n"
      using n by simp_all
    ultimately show ?thesis
      using False Some by (simp add: handlePrev_def index_valid_def)
  qed
qed

lemma setQueueAndPlay_index_valid:
  assumes "0 \<le> i" and "i < int (length list)"
  shows "index_valid (setQueueAndPlay list i s)"
  using assms by (simp add: setQueueAndPlay_def setCurrentQueue_def index_valid_def)

lemma init_index_valid: "index_valid (snd (init env (initialApp m)))"
  by (auto simp add: init_def initialApp_def index_valid_def MusicDB_init_def getAllTracks_def
        getPlaylists_def getSetting_def setCurrentQueue_def at_index_def Let_def
      split: idb_event.splits jsval.splits option.splits)

text \<open>
  Claim C2. After every operation of the controller the index, if not null, is a position
  of the current queue. Deleting a track that is in the queue and is not the current one
  breaks this in both versions of \<^verbatim>\<open>removeTrack\<close>: the session of \<open>stored_db\<close> is restored
  with the queue \<open>[a, b]\<close> and the index 1, track \<open>a\<close> is deleted, and the queue is \<open>[b]\<close>
  with the index still 1. (The lemmas above show that startup, next, previous and the
  list views keep the invariant.)
\<close>

theorem removeTrack_leaves_stale_index:
  "index_valid (snd (init all_succeed (initialApp stored_db)))
   \<and> currentTrackIndex (snd (init all_succeed (initialApp stored_db))) = Some 1
   \<and> fst (removeTrack all_succeed ''a'' (snd (init all_succeed (initialApp stored_db))))
       = Resolved ()
   \<and> currentTrackIndex
       (snd (removeTrack all_succeed ''a'' (snd (init all_succeed (initialApp stored_db)))))
       = Some 1
   \<and> map track_id
       (currentQueue
          (snd (removeTrack all_succeed ''a'' (snd (init all_succeed (initialApp stored_db))))))
       = [''b'']
   \<and> \<not> index_valid
          (snd (removeTrack all_succeed ''a'' (snd (init all_succeed (initialApp stored_db)))))
   \<and> \<not> index_valid
          (snd (removeTrack_App all_succeed ''a''
                  (snd (init all_succeed (initialApp stored_db)))))"
  by (simp add: init_def initialApp_def stored_db_def all_succeed_def MusicDB_init_def
        getAllTracks_def getPlaylists_def getSetting_def os_getAll_def os_get_def
        setCurrentQueue_def at_index_def SETTINGS_STORE_def removeTrack_App_def removeTrack_def
        deleteTrack_def savePlaylist_def os_delete_def currentTrack_def index_valid_def
        track_a_def track_b_def playlist_p_def RepeatMode_None_def Let_def
        TRACKS_STORE_def PLAYLISTS_STORE_def)

section \<open>Metadata extraction\<close>

text \<open>
  Claim C8, amended. Metadata extraction never rejects, in either version. When the tag
  reader is missing or reports an error, the longer version resolves with the file name
  without its extension as title, the sentinel artist, and neither album nor cover; the
  version of \<^verbatim>\<open>App.tsx\<close> resolves with that title alone, and the track the import loop
  builds from it has the sentinel artist, and neither album nor cover.
\<close>

theorem getMetadata_resolves_with_fallback:
  "(\<exists>meta. getMetadata btoa jsmediatags file = Resolved meta)
   \<and> (\<exists>meta. getMetadata_App btoa jsmediatags file = Resolved meta)
   \<and> (jsmediatags = None \<or> (\<exists>read. jsmediatags = Some read \<and> read file = onError) \<longrightarrow>
        getMetadata btoa jsmediatags file =
          Resolved \<lparr>meta_title = Some (without_extension (file_name file)),
                    meta_artist = Some ''Desconhecido'',
                    meta_album = None, meta_coverUrl = None\<rparr>
        \<and> getMetadata_App btoa jsmediatags file =
          Resolved \<lparr>meta_title = Some (without_extension (file_name file)),
                    meta_artist = None, meta_album = None, meta_coverUrl = None\<rparr>
        \<and> title (importedTrack new_id now dur file
                    \<lparr>meta_title = Some (without_extension (file_name file)),
                     meta_artist = None, meta_album = None, meta_coverUrl = None\<rparr>)
            = without_extension (file_name file)
        \<and> artist (importedTrack new_id now dur file
                     \<lparr>meta_title = Some (without_extension (file_name file)),
                      meta_artist = None, meta_album = None, meta_coverUrl = None\<rparr>)
            = ''Desconhecido''
        \<and> album (importedTrack new_id now dur file
                    \<lparr>meta_title = Some (without_extension (file_name file)),
                     meta_artist = None, meta_album = None, meta_coverUrl = None\<rparr>) = None
        \<and> coverUrl (importedTrack new_id now dur file
                       \<lparr>meta_title = Some (without_extension (file_name file)),
                        meta_artist = None, meta_album = None, meta_coverUrl = None\<rparr>) = None)"
  by (auto simp add: getMetadata_def getMetadata_App_def importedTrack_def or_else_def Let_def
      split: option.splits read_result.splits)

theorem getMetadata_resolves_with_fallback_witness:
  "getMetadata (\<lambda>x. x) None song_file =
     Resolved \<lparr>meta_title = Some ''song'', meta_artist = Some ''Desconhecido'',
               meta_album = None, meta_coverUrl = None\<rparr>
   \<and> getMetadata (\<lambda>x. x) (Some (\<lambda>f. onError)) song_file =
     Resolved \<lparr>meta_title = Some ''song'', meta_artist = Some ''Desconhecido'',
               meta_album = None, meta_coverUrl = None\<rparr>
   \<and> artist (importedTrack ''id'' 0 0 song_file
                \<lparr>meta_title = Some ''song'', meta_artist = None,
                 meta_album = None, meta_coverUrl = None\<rparr>) = ''Desconhecido''"
proof -
  have n: "without_extension (file_name song_file) = ''song''"
    by (simp add: without_extension_def song_file_def)
  show ?thesis
    using getMetadata_resolves_with_fallback [of "\<lambda>x. x" None song_file "''id''" 0 0]
          getMetadata_resolves_with_fallback
            [of "\<lambda>x. x" "Some (\<lambda>f. onError)" song_file "''id''" 0 0]
          n
    by simp
qed

text \<open>
  Claim C8 as stated fails for \<^verbatim>\<open>getMetadata\<close> of \<^verbatim>\<open>App.tsx\<close>: its fallback result has
  no artist.
\<close>

theorem getMetadata_App_fallback_has_no_artist:
  "getMetadata_App (\<lambda>x. x) None song_file =
     Resolved \<lparr>meta_title = Some ''song'', meta_artist = None,
               meta_album = None, meta_coverUrl = None\<rparr>
   \<and> getMetadata_App (\<lambda>x. x) (Some (\<lambda>f. onError)) song_file =
     Resolved \<lparr>meta_title = Some ''song'', meta_artist = None,
               meta_album = None, meta_coverUrl = None\<rparr>"
  by (simp add: getMetadata_App_def without_extension_def song_file_def)

section \<open>Storage failures\<close>

text \<open>
  Claim C9, amended. When the underlying request ends in an error, \<^verbatim>\<open>init\<close>,
  \<^verbatim>\<open>saveTrack\<close>, \<^verbatim>\<open>getAllTracks\<close>, \<^verbatim>\<open>deleteTrack\<close>, \<^verbatim>\<open>savePlaylist\<close>, \<^verbatim>\<open>getPlaylists\<close>,
  \<^verbatim>\<open>deletePlaylist\<close> and \<^verbatim>\<open>saveSetting\<close> reject and leave the store as it was;
  \<^verbatim>\<open>getSetting\<close> on an open database resolves with \<^verbatim>\<open>null\<close>.
\<close>

theorem storage_errors_reject_except_getSetting:
  "(env Open = onerror \<longrightarrow>
      is_rejected (fst (MusicDB_init env m)) \<and> snd (MusicDB_init env m) = m)
   \<and> (env (Put TRACKS_STORE (track_id t)) = onerror \<longrightarrow>
      is_rejected (fst (saveTrack env t m)) \<and> snd (saveTrack env t m) = m)
   \<and> (env (GetAll TRACKS_STORE) = onerror \<longrightarrow>
      is_rejected (fst (getAllTracks env m)) \<and> snd (getAllTracks env m) = m)
   \<and> (env (Delete TRACKS_STORE i) = onerror \<longrightarrow>
      is_rejected (fst (deleteTrack env i m)) \<and> snd (deleteTrack env i m) = m)
   \<and> (env (Put PLAYLISTS_STORE (playlist_id p)) = onerror \<longrightarrow>
      is_rejected (fst (savePlaylist env p m)) \<and> snd (savePlaylist env p m) = m)
   \<and> (env (GetAll PLAYLISTS_STORE) = onerror \<longrightarrow>
      is_rejected (fst (getPlaylists env m)) \<and> snd (getPlaylists env m) = m)
   \<and> (env (Delete PLAYLISTS_STORE i) = onerror \<longrightarrow>
      is_rejected (fst (deletePlaylist env i m)) \<and> snd (deletePlaylist env i m) = m)
   \<and> (env (Put SETTINGS_STORE k) = onerror \<longrightarrow>
      is_rejected (fst (saveSetting env k v m)) \<and> snd (saveSetting env k v m) = m)
   \<and> (db m \<and> env (Get SETTINGS_STORE k) = onerror \<longrightarrow>
      getSetting env k m = (Resolved JNull, m))"
  by (simp add: MusicDB_init_def saveTrack_def getAllTracks_def deleteTrack_def
        savePlaylist_def getPlaylists_def deletePlaylist_def saveSetting_def getSetting_def)

theorem storage_errors_reject_except_getSetting_witness:
  "all_fail Open = onerror
   \<and> is_rejected (fst (MusicDB_init all_fail empty_db))
   \<and> is_rejected (fst (saveTrack all_fail track_a open_db))
   \<and> is_rejected (fst (getAllTracks all_fail open_db))
   \<and> is_rejected (fst (deleteTrack all_fail ''a'' open_db))
   \<and> is_rejected (fst (savePlaylist all_fail playlist_p open_db))
   \<and> is_rejected (fst (getPlaylists all_fail open_db))
   \<and> is_rejected (fst (deletePlaylist all_fail ''a'' open_db))
   \<and> is_rejected (fst (saveSetting all_fail ''shuffle'' (JBool True) open_db))
   \<and> db open_db
   \<and> getSetting all_fail ''shuffle'' open_db = (Resolved JNull, open_db)"
  using storage_errors_reject_except_getSetting
          [of all_fail empty_db track_a "''a''" playlist_p "''shuffle''" "JBool True"]
        storage_errors_reject_except_getSetting
          [of all_fail open_db track_a "''a''" playlist_p "''shuffle''" "JBool True"]
  by (simp add: all_fail_def open_db_def)

text \<open>
  Claim C9 as stated fails for \<^verbatim>\<open>getSetting\<close>: with a failing request it resolves.
\<close>

theorem getSetting_error_resolves_null:
  "getSetting all_fail ''shuffle'' open_db = (Resolved JNull, open_db)
   \<and> \<not> is_rejected (fst (getSetting all_fail ''shuffle'' open_db))"
  by (simp add: getSetting_def all_fail_def open_db_def)

end
